theory Spec2Isabelle
  imports Main
begin

section \<open>Strings as the page and the URL code see them\<close>

text \<open>
  A JavaScript string is modelled as a \<^typ>\<open>string\<close>, every \<^typ>\<open>char\<close> standing for the
  code point of the same number (U+0000 to U+00FF). The numbers \<open>parseInt\<close> returns are
  modelled as the doubles they are, rounding included; the numeric options of a search are
  modelled as integers.
\<close>

definition is_digit :: "char \<Rightarrow> bool" where
  \<comment> \<open>the complement of the regular expression class \<open>\D\<close>: the characters \<open>0\<close> to \<open>9\<close>\<close>
  "is_digit c = (48 \<le> (of_char c :: nat) \<and> (of_char c :: nat) \<le> 57)"

definition is_ws :: "char \<Rightarrow> bool" where
  \<comment> \<open>white space and line terminators of ECMAScript below U+0100:
      TAB, LF, VT, FF, CR, SP and NBSP\<close>
  "is_ws c = ((of_char c :: nat) \<in> {9, 10, 11, 12, 13, 32, 160})"

definition trim :: "string \<Rightarrow> string" where
  \<comment> \<open>\<open>String.prototype.trim\<close>\<close>
  "trim s = rev (dropWhile is_ws (rev (dropWhile is_ws s)))"

definition strip_non_digits :: "string \<Rightarrow> string" where
  \<comment> \<open>\<open>s.replace(/\D/g, '')\<close>\<close>
  "strip_non_digits s = filter is_digit s"

definition digit_val :: "char \<Rightarrow> nat" where
  "digit_val c = of_char c - 48"

definition decimal :: "string \<Rightarrow> nat" where
  \<comment> \<open>the value of a sequence of decimal digits, most significant first\<close>
  "decimal ds = foldl (\<lambda>a c. 10 * a + digit_val c) 0 ds"

datatype number = NaN | Fin int | PosInf | NegInf
  \<comment> \<open>the values \<open>parseInt\<close> can return: \<open>NaN\<close>, a double that is an integer, and the two
      infinities\<close>

fun width :: "nat \<Rightarrow> nat" where
  \<comment> \<open>the number of binary digits\<close>
  "width n = (if n = 0 then 0 else Suc (width (n div 2)))"

declare width.simps [simp del]

definition to_double :: "nat \<Rightarrow> number" where
  \<comment> \<open>the double nearest to a natural number: 53 binary digits are kept, a tie goes to
      the even neighbour, and what reaches \<open>2^1024\<close> is \<open>Infinity\<close>\<close>
  "to_double v =
     (if v < 2 ^ 53 then Fin (int v)
      else let e = width v - 53;
               q = v div 2 ^ e;
               r = v mod 2 ^ e;
               q' = (if 2 ^ e < 2 * r \<or> (2 * r = 2 ^ e \<and> odd q) then q + 1 else q);
               d = q' * 2 ^ e
           in if d < 2 ^ 1024 then Fin (int d) else PosInf)"

definition parseInt :: "string \<Rightarrow> number" where
  \<comment> \<open>\<open>parseInt(s, 10)\<close>: leading white space is skipped, a sign is read, then the longest
      run of decimal digits, whose value is rounded to a double; \<open>NaN\<close> when no digit
      could be read\<close>
  "parseInt s =
     (let S = dropWhile is_ws s;
          sign = (case S of c # _ \<Rightarrow> if c = CHR ''-'' then - 1 else 1 | [] \<Rightarrow> (1::int));
          S' = (case S of c # r \<Rightarrow> if c = CHR ''-'' \<or> c = CHR ''+'' then r else S | [] \<Rightarrow> S);
          Z = takeWhile is_digit S'
      in if Z = [] then NaN
         else (case to_double (decimal Z) of
                 Fin i \<Rightarrow> Fin (sign * i)
               | PosInf \<Rightarrow> if sign < 0 then NegInf else PosInf
               | x \<Rightarrow> x))"

definition or_zero :: "number \<Rightarrow> number" where
  \<comment> \<open>\<open>x || 0\<close> for a number \<open>x\<close>: \<open>NaN\<close> and \<open>0\<close> are falsy\<close>
  "or_zero x = (if x = NaN \<or> x = Fin 0 then Fin 0 else x)"

fun number_ge :: "number \<Rightarrow> int \<Rightarrow> bool" where
  \<comment> \<open>\<open>n >= m\<close> for an integer \<open>m\<close>\<close>
  "number_ge NaN m = False"
| "number_ge (Fin i) m = (m \<le> i)"
| "number_ge PosInf m = True"
| "number_ge NegInf m = False"

fun number_lt :: "number \<Rightarrow> int \<Rightarrow> bool" where
  \<comment> \<open>\<open>n < m\<close> for an integer \<open>m\<close>\<close>
  "number_lt NaN m = False"
| "number_lt (Fin i) m = (i < m)"
| "number_lt PosInf m = False"
| "number_lt NegInf m = True"

definition derive_orderCount :: "string \<Rightarrow> number" where
  \<comment> \<open>\<open>parseInt(text.replace(/\D/g, ''), 10) || 0\<close>\<close>
  "derive_orderCount text = or_zero (parseInt (strip_non_digits text))"

definition orderCount_per_spec :: "string \<Rightarrow> int" where
  \<comment> \<open>the specification's wording: strip every non-digit character, read the remainder as
      a decimal integer, an empty remainder giving 0\<close>
  "orderCount_per_spec text =
     (let r = filter is_digit text in if r = [] then 0 else int (decimal r))"

section \<open>Options, catalog elements and product records\<close>

datatype optnum = Undefined | Null | Num int
  \<comment> \<open>an optional number as JavaScript holds it\<close>

fun truthy :: "optnum \<Rightarrow> bool" where
  "truthy Undefined = False"
| "truthy Null = False"
| "truthy (Num n) = (n \<noteq> 0)"

fun num_ge :: "number \<Rightarrow> optnum \<Rightarrow> bool" where
  \<comment> \<open>\<open>n >= x\<close>: \<open>undefined\<close> converts to \<open>NaN\<close>, \<open>null\<close> to 0\<close>
  "num_ge n Undefined = False"
| "num_ge n Null = number_ge n 0"
| "num_ge n (Num m) = number_ge n m"

fun num_lt :: "number \<Rightarrow> optnum \<Rightarrow> bool" where
  \<comment> \<open>\<open>n < x\<close>\<close>
  "num_lt n Undefined = False"
| "num_lt n Null = number_lt n 0"
| "num_lt n (Num m) = number_lt n m"

record options =
  searchTerm :: string
  minPrice :: optnum
  maxPrice :: optnum
  minOrderCount :: optnum
  maxPages :: int

text \<open>
  What the extraction reads of one \<open>.product-item\<close> element: the \<open>data-product-id\<close>
  attribute (\<open>None\<close> when \<open>getAttribute\<close> returns \<open>null\<close>), the \<open>innerText\<close> of each
  child the selectors find (\<open>None\<close> when \<open>querySelector\<close> returns \<open>null\<close>) and the
  \<open>href\<close> of the first anchor.
\<close>

record element =
  data_product_id :: "string option"
  titleEl :: "string option"
  priceEl :: "string option"
  orderCountEl :: "string option"
  ratingEl :: "string option"
  anchor :: "string option"

record product =
  id' :: string
  title :: string
  price :: string
  orderCount :: string
  rating :: string
  link :: string
  scraped_at :: string

definition text_or :: "string option \<Rightarrow> string \<Rightarrow> string" where
  \<comment> \<open>\<open>e ? e.innerText.trim() : d\<close>\<close>
  "text_or e d = (case e of Some t \<Rightarrow> trim t | None \<Rightarrow> d)"

definition product_record :: "string \<Rightarrow> element \<Rightarrow> product" where
  \<comment> \<open>the object literal both extraction callbacks build; \<open>now\<close> is
      \<open>new Date().toISOString()\<close>\<close>
  "product_record now el =
     \<lparr> id' = (case data_product_id el of
                 Some a \<Rightarrow> if a = [] then ''N/A'' else a
               | None \<Rightarrow> ''N/A''),
       title = text_or (titleEl el) ''N/A'',
       price = text_or (priceEl el) ''N/A'',
       orderCount = text_or (orderCountEl el) ''0'',
       rating = text_or (ratingEl el) ''N/A'',
       link = (case anchor el of Some h \<Rightarrow> h | None \<Rightarrow> ''N/A''),
       scraped_at = now \<rparr>"

definition extract_records :: "(nat \<Rightarrow> string) \<Rightarrow> element list \<Rightarrow> product list" where
  \<comment> \<open>the \<open>map\<close> over \<open>Array.from(productElements)\<close>, without the filter; \<open>clock i\<close> is the
      time read while element number \<open>i\<close> is mapped\<close>
  "extract_records clock els = map (\<lambda>(i, el). product_record (clock i) el) (enumerate 0 els)"

subsection \<open>The filter of \<open>scrapeProducts\<close>\<close>

definition keep_product :: "options \<Rightarrow> product \<Rightarrow> bool" where
  "keep_product opts p =
     (let n = derive_orderCount (orderCount p)
      in if truthy (minOrderCount opts) then num_ge n (minOrderCount opts) else True)"

definition pageProducts :: "options \<Rightarrow> (nat \<Rightarrow> string) \<Rightarrow> element list \<Rightarrow> product list" where
  \<comment> \<open>the callback given to \<open>page.evaluate\<close> in \<open>scrapeProducts\<close>\<close>
  "pageProducts opts clock els = filter (keep_product opts) (extract_records clock els)"

subsection \<open>The filter of \<open>handler\<close>\<close>

definition handler_item :: "optnum \<Rightarrow> string \<Rightarrow> element \<Rightarrow> product option" where
  \<comment> \<open>the body of the \<open>map\<close> callback: \<open>None\<close> is the \<open>null\<close> it returns for a rejected item\<close>
  "handler_item minOrderCount' now el =
     (let n = (case orderCountEl el of Some t \<Rightarrow> derive_orderCount t | None \<Rightarrow> Fin 0)
      in if truthy minOrderCount' \<and> num_lt n minOrderCount' then None
         else Some (product_record now el))"

definition handler_products :: "optnum \<Rightarrow> (nat \<Rightarrow> string) \<Rightarrow> element list \<Rightarrow> product list" where
  \<comment> \<open>the callback given to \<open>page.evaluate\<close> in \<open>handler\<close>:
      \<open>map\<close>, then \<open>filter(product => product !== null)\<close>\<close>
  "handler_products minOrderCount' clock els =
     map the (filter (\<lambda>r. r \<noteq> None)
       (map (\<lambda>(i, el). handler_item minOrderCount' (clock i) el) (enumerate 0 els)))"

definition passes_per_spec :: "optnum \<Rightarrow> product \<Rightarrow> bool" where
  \<comment> \<open>the specification's rule: with a threshold present the derived order count must reach
      it, with none every record passes\<close>
  "passes_per_spec threshold p =
     (case threshold of
        Num m \<Rightarrow> number_ge (derive_orderCount (orderCount p)) m
      | _ \<Rightarrow> True)"

section \<open>The search URL\<close>

definition utf8 :: "char \<Rightarrow> nat list" where
  \<comment> \<open>the UTF-8 bytes of a code point below U+0100\<close>
  "utf8 c = (let n = (of_char c :: nat)
             in if n < 128 then [n] else [192 + n div 64, 128 + n mod 64])"

definition hex :: "nat \<Rightarrow> char" where
  "hex n = ''0123456789ABCDEF'' ! n"

definition percent_byte :: "nat \<Rightarrow> string" where
  "percent_byte b = [CHR ''%'', hex (b div 16), hex (b mod 16)]"

definition alphanumeric :: "char \<Rightarrow> bool" where
  "alphanumeric c =
     (c \<in> set ''ABCDEFGHIJKLMNOPQRSTUVWXYZabcdefghijklmnopqrstuvwxyz0123456789'')"

definition encodeURIComponent :: "string \<Rightarrow> string" where
  \<comment> \<open>letters, digits and \<open>- _ . ! ~ * ' ( )\<close> are kept, every other code point is
      replaced by the percent escapes of its UTF-8 bytes\<close>
  "encodeURIComponent s =
     concat (map (\<lambda>c. if alphanumeric c \<or> c \<in> set [CHR ''-'', CHR ''_'', CHR ''.'', CHR ''!'',
                                 CHR ''~'', CHR ''*'', CHR 0x27, CHR ''('', CHR '')'']
                        then [c] else concat (map percent_byte (utf8 c))) s)"

definition form_encode :: "string \<Rightarrow> string" where
  \<comment> \<open>the \<open>application/x-www-form-urlencoded\<close> serialiser of \<open>URLSearchParams\<close>: a space
      becomes \<open>+\<close>, letters, digits and \<open>* - . _\<close> are kept, every other byte is escaped\<close>
  "form_encode s =
     concat (map (\<lambda>c. if c = CHR '' '' then ''+''
                        else if alphanumeric c \<or> c \<in> set ''*-._'' then [c]
                        else concat (map percent_byte (utf8 c))) s)"

fun join :: "string \<Rightarrow> string list \<Rightarrow> string" where
  "join sep [] = []"
| "join sep [x] = x"
| "join sep (x # y # ys) = x @ sep @ join sep (y # ys)"

definition piece :: "string \<Rightarrow> string \<Rightarrow> string" where
  \<comment> \<open>one parameter, serialised\<close>
  "piece k v = form_encode k @ ''='' @ form_encode v"

definition params_toString :: "(string \<times> string) list \<Rightarrow> string" where
  \<comment> \<open>\<open>URLSearchParams.prototype.toString\<close>\<close>
  "params_toString ps = join ''&'' (map (\<lambda>(k, v). piece k v) ps)"

fun string_of_nat :: "nat \<Rightarrow> string" where
  "string_of_nat n =
     (if n < 10 then [char_of (48 + n)]
      else string_of_nat (n div 10) @ [char_of (48 + n mod 10)])"

fun to_string :: "optnum \<Rightarrow> string" where
  \<comment> \<open>the string conversion \<open>append\<close> applies to its value; a number is printed in full,
      as JavaScript prints an integer of magnitude below \<open>10^21\<close>\<close>
  "to_string Undefined = ''undefined''"
| "to_string Null = ''null''"
| "to_string (Num i) = (if i < 0 then CHR ''-'' # string_of_nat (nat (- i)) else string_of_nat (nat i))"

definition baseURL :: string where
  "baseURL = ''https://www.aliexpress.com/wholesale''"

definition search_params :: "string \<Rightarrow> optnum \<Rightarrow> optnum \<Rightarrow> (string \<times> string) list" where
  \<comment> \<open>the three \<open>params.append\<close> statements, the last two guarded by the truthiness of
      the price bound\<close>
  "search_params term lo hi =
     [(''SearchText'', encodeURIComponent term)]
     @ (if truthy lo then [(''minPrice'', to_string lo)] else [])
     @ (if truthy hi then [(''maxPrice'', to_string hi)] else [])"

definition searchURL :: "string \<Rightarrow> optnum \<Rightarrow> optnum \<Rightarrow> string" where
  \<comment> \<open>\<open>`${baseURL}?${params.toString()}`\<close>, as \<open>handler\<close> builds it\<close>
  "searchURL term lo hi = baseURL @ ''?'' @ params_toString (search_params term lo hi)"

definition buildSearchURL :: "options \<Rightarrow> string" where
  "buildSearchURL opts = searchURL (searchTerm opts) (minPrice opts) (maxPrice opts)"

subsection \<open>Reading a URL's query back\<close>

fun split_on :: "char \<Rightarrow> string \<Rightarrow> string list" where
  "split_on d [] = [[]]"
| "split_on d (c # cs) =
     (if c = d then [] # split_on d cs
      else (case split_on d cs of p # ps \<Rightarrow> (c # p) # ps | [] \<Rightarrow> [[c]]))"

definition hex_val :: "char \<Rightarrow> nat option" where
  "hex_val c =
     (let n = (of_char c :: nat)
      in if 48 \<le> n \<and> n \<le> 57 then Some (n - 48)
         else if 65 \<le> n \<and> n \<le> 70 then Some (n - 55)
         else if 97 \<le> n \<and> n \<le> 102 then Some (n - 87)
         else None)"

fun percent_decode :: "string \<Rightarrow> nat list" where
  \<comment> \<open>the bytes a percent-encoded string stands for; a \<open>%\<close> not followed by two
      hexadecimal digits stands for itself\<close>
  "percent_decode (a # b # c # r) =
     (if a = CHR ''%'' then
        (case (hex_val b, hex_val c) of
           (Some h, Some l) \<Rightarrow> (16 * h + l) # percent_decode r
         | _ \<Rightarrow> of_char a # percent_decode (b # c # r))
      else of_char a # percent_decode (b # c # r))"
| "percent_decode (a # r) = of_char a # percent_decode r"
| "percent_decode [] = []"

fun utf8_decode :: "nat list \<Rightarrow> string option" where
  \<comment> \<open>\<open>None\<close> when the bytes are not the UTF-8 form of code points below U+0100\<close>
  "utf8_decode [] = Some []"
| "utf8_decode (b # bs) =
     (if b < 128 then map_option (\<lambda>r. char_of b # r) (utf8_decode bs)
      else (case bs of
              b2 # r \<Rightarrow>
                if (b = 194 \<or> b = 195) \<and> 128 \<le> b2 \<and> b2 < 192
                then map_option (\<lambda>r'. char_of ((b - 192) * 64 + (b2 - 128)) # r') (utf8_decode r)
                else None
            | [] \<Rightarrow> None))"

definition form_decode :: "string \<Rightarrow> string option" where
  \<comment> \<open>decoding a name or a value of a query once: \<open>+\<close> is a space, then the percent
      escapes are read\<close>
  "form_decode s = utf8_decode (percent_decode (map (\<lambda>c. if c = CHR ''+'' then CHR '' '' else c) s))"

definition query_of :: "string \<Rightarrow> string" where
  \<comment> \<open>what follows the first \<open>?\<close>\<close>
  "query_of url = drop 1 (dropWhile (\<lambda>c. c \<noteq> CHR ''?'') url)"

definition query_params :: "string \<Rightarrow> (string option \<times> string option) list" where
  \<comment> \<open>the parameters a reader of the URL finds: the query is cut at every \<open>&\<close>, empty
      pieces are dropped, each piece is cut at its first \<open>=\<close> and both sides are decoded\<close>
  "query_params url =
     map (\<lambda>p. (form_decode (takeWhile (\<lambda>c. c \<noteq> CHR ''='') p),
                form_decode (drop 1 (dropWhile (\<lambda>c. c \<noteq> CHR ''='') p))))
         (filter (\<lambda>p. p \<noteq> []) (split_on CHR ''&'' (query_of url)))"

definition query_names :: "string \<Rightarrow> string option list" where
  "query_names url = map fst (query_params url)"

section \<open>The browser as the code drives it\<close>

text \<open>
  Every \<open>await\<close> on the browser engine may throw. The engine is an input of the model: a
  record tells, for each call the code can make, whether it throws (an \<open>error\<close>, the message
  of the exception) and what it yields. The calls made are written to a trace.
\<close>

type_synonym error = string

datatype event =
    Launch | NewPage | Goto string | WaitForSelector
  | Evaluate int | QueryNext int | Click int | WaitForTimeout int
  | Log error | Close

datatype 'a outcome = Returned 'a | Thrown error

datatype flow = Normal | Break | Throw error
  \<comment> \<open>how a statement ends: at its end, by \<open>break\<close>, or by an exception\<close>

subsection \<open>\<open>AliExpressScraper.scrapeProducts\<close>\<close>

record page_view =
  evaluate :: "error + element list"
    \<comment> \<open>\<open>page.evaluate\<close>: throws, or runs the callback on these \<open>.product-item\<close> elements\<close>
  clock :: "nat \<Rightarrow> string"
  next_page :: "error + bool"
    \<comment> \<open>\<open>page.$('.next-page')\<close>: throws, or tells whether the control exists\<close>
  click :: "error option"
  waitForTimeout :: "error option"

record world =
  launch :: "error option"
  newPage :: "error option"
    \<comment> \<open>\<open>newPage\<close>, \<open>setUserAgent\<close>, \<open>setRequestInterception\<close> in \<open>initialize\<close>\<close>
  goto :: "error option"
  waitForSelector :: "error option"
  page_at :: "int \<Rightarrow> page_view"
    \<comment> \<open>what the page shows and does during the pass numbered \<open>pageNum\<close>\<close>
  close :: "error option"

record crawl =
  products :: "product list"
  events :: "event list"

definition emit :: "event \<Rightarrow> crawl \<Rightarrow> crawl" where
  "emit ev st = st\<lparr>events := events st @ [ev]\<rparr>"

definition initialize :: "world \<Rightarrow> error option \<times> event list" where
  "initialize w =
     (case launch w of
        Some e \<Rightarrow> (Some e, [Launch])
      | None \<Rightarrow> (newPage w, [Launch, NewPage]))"

definition loop_body :: "world \<Rightarrow> options \<Rightarrow> int \<Rightarrow> crawl \<Rightarrow> flow \<times> crawl" where
  \<comment> \<open>the body of the \<open>for\<close> loop\<close>
  "loop_body w opts pageNum st =
     (let v = page_at w pageNum;
          st1 = emit (Evaluate pageNum) st
      in case evaluate v of
           Inl e \<Rightarrow> (Throw e, st1)
         | Inr els \<Rightarrow>
             let st2 = st1\<lparr>products := products st1 @ pageProducts opts (clock v) els\<rparr>;
                 st3 = emit (QueryNext pageNum) st2
             in case next_page v of
                  Inl e \<Rightarrow> (Throw e, st3)
                | Inr nextPageButton \<Rightarrow>
                    if nextPageButton \<and> pageNum < maxPages opts then
                      let st4 = emit (Click pageNum) st3
                      in case click v of
                           Some e \<Rightarrow> (Throw e, st4)
                         | None \<Rightarrow>
                             let st5 = emit (WaitForTimeout pageNum) st4
                             in (case waitForTimeout v of
                                   Some e \<Rightarrow> (Throw e, st5)
                                 | None \<Rightarrow> (Normal, st5))
                    else (Break, st3))"

function scrape_loop :: "world \<Rightarrow> options \<Rightarrow> int \<Rightarrow> crawl \<Rightarrow> flow \<times> int \<times> crawl" where
  \<comment> \<open>\<open>for (let pageNum = 1; pageNum <= this.options.maxPages; pageNum++)\<close>, entered with
      the current \<open>pageNum\<close>; the result holds how the loop ended and the last \<open>pageNum\<close>\<close>
  "scrape_loop w opts pageNum st =
     (if pageNum \<le> maxPages opts then
        (case loop_body w opts pageNum st of
           (Normal, st') \<Rightarrow> scrape_loop w opts (pageNum + 1) st'
         | (Break, st') \<Rightarrow> (Break, pageNum, st')
         | (Throw e, st') \<Rightarrow> (Throw e, pageNum, st'))
      else (Normal, pageNum, st))"
  by pat_completeness auto
termination
  by (relation "measure (\<lambda>(w, opts, pageNum, st). nat (maxPages opts + 1 - pageNum))") auto

declare scrape_loop.simps [simp del]

definition try_block :: "world \<Rightarrow> options \<Rightarrow> string \<Rightarrow> crawl \<Rightarrow> flow \<times> crawl" where
  "try_block w opts url st =
     (let st1 = emit (Goto url) st
      in case goto w of
           Some e \<Rightarrow> (Throw e, st1)
         | None \<Rightarrow>
             let st2 = emit WaitForSelector st1
             in case waitForSelector w of
                  Some e \<Rightarrow> (Throw e, st2)
                | None \<Rightarrow> (case scrape_loop w opts 1 st2 of (fl, pageNum, st3) \<Rightarrow> (fl, st3)))"

definition scrapeProducts :: "world \<Rightarrow> options \<Rightarrow> product list outcome \<times> event list" where
  "scrapeProducts w opts =
     (case initialize w of
        (Some e, tr) \<Rightarrow> (Thrown e, tr)
      | (None, tr) \<Rightarrow>
          let url = buildSearchURL opts;
              (fl, st) = try_block w opts url \<lparr>products = [], events = tr\<rparr>;
              st' = (case fl of Throw e \<Rightarrow> emit (Log e) st | _ \<Rightarrow> st);
              st'' = emit Close st'
          in case close w of
               Some e \<Rightarrow> (Thrown e, events st'')
             | None \<Rightarrow> (Returned (products st''), events st''))"

subsection \<open>\<open>handler\<close>\<close>

record request =
  http_method :: string
  body_searchTerm :: "string option"
  body_minPrice :: optnum
  body_maxPrice :: optnum
  body_minOrderCount :: optnum
  body_maxPages :: optnum

record handler_world =
  h_launch :: "error option"
  h_newPage :: "error option"
  h_goto :: "error option"
  h_evaluate :: "error + element list"
  h_clock :: "nat \<Rightarrow> string"
  h_close :: "error option"
  h_now :: string

record metadata =
  search_term :: string
  min_price :: optnum
  max_price :: optnum
  min_order_count :: optnum
  total_products :: nat
  meta_scraped_at :: string

datatype response =
    MethodNotAllowed
  | Ok metadata "product list"
  | ScrapingFailed string
  \<comment> \<open>status 405, status 200 with the result, status 500 with the details\<close>

definition or_default :: "optnum \<Rightarrow> int \<Rightarrow> optnum" where
  \<comment> \<open>a default of the destructuring pattern: it replaces \<open>undefined\<close> only\<close>
  "or_default x d = (case x of Undefined \<Rightarrow> Num d | _ \<Rightarrow> x)"

definition failed :: "error \<Rightarrow> event list \<Rightarrow> response \<times> event list" where
  \<comment> \<open>the \<open>catch\<close> block\<close>
  "failed e tr = (ScrapingFailed e, tr @ [Log e])"

definition handler :: "request \<Rightarrow> handler_world \<Rightarrow> response \<times> event list" where
  "handler req w =
     (if http_method req \<noteq> ''POST'' then (MethodNotAllowed, [])
      else
        let searchTerm' = (case body_searchTerm req of None \<Rightarrow> ''smartphone'' | Some t \<Rightarrow> t);
            minPrice' = or_default (body_minPrice req) 100;
            maxPrice' = or_default (body_maxPrice req) 500;
            minOrderCount' = or_default (body_minOrderCount req) 50
        in case h_launch w of
             Some e \<Rightarrow> failed e [Launch]
           | None \<Rightarrow>
          (case h_newPage w of
             Some e \<Rightarrow> failed e [Launch, NewPage]
           | None \<Rightarrow>
          (let url = searchURL searchTerm' minPrice' maxPrice'
           in case h_goto w of
                Some e \<Rightarrow> failed e [Launch, NewPage, Goto url]
              | None \<Rightarrow>
          (case h_evaluate w of
             Inl e \<Rightarrow> failed e [Launch, NewPage, Goto url, Evaluate 1]
           | Inr els \<Rightarrow>
          (let found = handler_products minOrderCount' (h_clock w) els
           in case h_close w of
                Some e \<Rightarrow> failed e [Launch, NewPage, Goto url, Evaluate 1, Close]
              | None \<Rightarrow>
                  (Ok \<lparr> search_term = searchTerm', min_price = minPrice', max_price = maxPrice',
                        min_order_count = minOrderCount', total_products = length found,
                        meta_scraped_at = h_now w \<rparr> found,
                   [Launch, NewPage, Goto url, Evaluate 1, Close]))))))"

subsection \<open>Observations on a run\<close>

fun page_no :: "event \<Rightarrow> int option" where
  "page_no (Evaluate p) = Some p"
| "page_no (QueryNext p) = Some p"
| "page_no (Click p) = Some p"
| "page_no (WaitForTimeout p) = Some p"
| "page_no _ = None"

definition within :: "int \<Rightarrow> event \<Rightarrow> bool" where
  "within N ev = (case page_no ev of Some p \<Rightarrow> p \<le> N | None \<Rightarrow> True)"

fun is_Evaluate :: "event \<Rightarrow> bool" where
  "is_Evaluate (Evaluate p) = True"
| "is_Evaluate _ = False"

definition extraction_passes :: "event list \<Rightarrow> nat" where
  "extraction_passes tr = length (filter is_Evaluate tr)"

definition closes :: "event list \<Rightarrow> nat" where
  "closes tr = length (filter (\<lambda>ev. ev = Close) tr)"

definition page_records :: "world \<Rightarrow> options \<Rightarrow> int \<Rightarrow> product list" where
  \<comment> \<open>the records one pass adds: those of the page that pass the filter, none when the
      extraction throws\<close>
  "page_records w opts i =
     (case evaluate (page_at w i) of
        Inr els \<Rightarrow> pageProducts opts (clock (page_at w i)) els
      | Inl e \<Rightarrow> [])"

definition advances :: "world \<Rightarrow> int \<Rightarrow> bool" where
  \<comment> \<open>the pass extracts, finds the next-page control, clicks it and waits, all without
      an exception\<close>
  "advances w i =
     (let v = page_at w i
      in (case evaluate v of Inr els \<Rightarrow> True | Inl e \<Rightarrow> False)
         \<and> next_page v = Inr True \<and> click v = None \<and> waitForTimeout v = None)"

definition failure_at :: "world \<Rightarrow> options \<Rightarrow> int \<Rightarrow> error option" where
  \<comment> \<open>the exception the pass on page \<open>i\<close> throws, if any: from the extraction, from the
      lookup of the next-page control, from the click or from the wait\<close>
  "failure_at w opts i =
     (let v = page_at w i
      in case evaluate v of
           Inl e \<Rightarrow> Some e
         | Inr els \<Rightarrow>
             (case next_page v of
                Inl e \<Rightarrow> Some e
              | Inr b \<Rightarrow>
                  if b \<and> i < maxPages opts then
                    (case click v of Some e \<Rightarrow> Some e | None \<Rightarrow> waitForTimeout v)
                  else None))"

definition exit_reason :: "world \<Rightarrow> options \<Rightarrow> flow \<Rightarrow> int \<Rightarrow> bool" where
  \<comment> \<open>the three ways the loop may end on page \<open>i\<close>: the page count has reached
      \<open>maxPages\<close>, there is no next-page control, or a call on that page threw\<close>
  "exit_reason w opts fl i =
     (case fl of
        Break \<Rightarrow> i = maxPages opts \<or> next_page (page_at w i) = Inr False
      | Throw e \<Rightarrow> failure_at w opts i = Some e
      | Normal \<Rightarrow> False)"

definition absent :: "optnum \<Rightarrow> bool" where
  \<comment> \<open>an optional field that was not given\<close>
  "absent x = (x = Undefined \<or> x = Null)"

definition start :: "options \<Rightarrow> crawl" where
  \<comment> \<open>the state in which \<open>scrapeProducts\<close> enters its loop: no product yet, and the calls
      of \<open>initialize\<close>, \<open>goto\<close> and \<open>waitForSelector\<close> made\<close>
  "start opts =
     \<lparr>products = [], events = [Launch, NewPage, Goto (buildSearchURL opts), WaitForSelector]\<rparr>"

section \<open>Concrete inputs\<close>

definition bare_element :: element where
  \<comment> \<open>a \<open>.product-item\<close> with no attribute and no child the selectors find\<close>
  "bare_element =
     \<lparr> data_product_id = None, titleEl = None, priceEl = None, orderCountEl = None,
       ratingEl = None, anchor = None \<rparr>"

definition phone_element :: element where
  "phone_element =
     \<lparr> data_product_id = Some ''4001'', titleEl = Some '' Phone X '', priceEl = Some ''US $199.00'',
       orderCountEl = Some ''1,234 orders'', ratingEl = Some ''4.8'',
       anchor = Some ''https://www.aliexpress.com/item/4001.html'' \<rparr>"

definition no_bounds :: options where
  "no_bounds =
     \<lparr> searchTerm = ''smartphone'', minPrice = Null, maxPrice = Undefined,
       minOrderCount = Num 50, maxPages = 3 \<rparr>"

definition two_words :: options where
  "two_words =
     \<lparr> searchTerm = ''smart phone'', minPrice = Null, maxPrice = Null,
       minOrderCount = Null, maxPages = 1 \<rparr>"

definition example_options :: options where
  \<comment> \<open>the options of the example usage in \<open>main\<close>\<close>
  "example_options =
     \<lparr> searchTerm = ''smartphone'', minPrice = Num 100, maxPrice = Num 500,
       minOrderCount = Num 50, maxPages = 3 \<rparr>"

definition item :: "string \<Rightarrow> string \<Rightarrow> element" where
  "item i orders =
     \<lparr> data_product_id = Some i, titleEl = Some ''Phone'', priceEl = Some ''US $120.00'',
       orderCountEl = Some orders, ratingEl = None, anchor = None \<rparr>"

definition catalog_page :: "bool \<Rightarrow> page_view" where
  \<comment> \<open>a page of three items with 10, 60 and 200 orders, with or without a next-page control\<close>
  "catalog_page has_next =
     \<lparr> evaluate = Inr [item ''1'' ''10 sold'', item ''2'' ''60 sold'', item ''3'' ''200 sold''],
       clock = (\<lambda>i. ''2024-01-01T00:00:00.000Z''),
       next_page = Inr has_next, click = None, waitForTimeout = None \<rparr>"

definition three_pages :: world where
  \<comment> \<open>pages 1 and 2 have a next-page control, page 3 has none\<close>
  "three_pages =
     \<lparr> launch = None, newPage = None, goto = None, waitForSelector = None,
       page_at = (\<lambda>i. catalog_page (i < 3)), close = None \<rparr>"

definition long_count :: string where
  \<comment> \<open>an order-count text whose digits read \<open>2^53 + 3\<close>\<close>
  "long_count = ''9007199254740995 sold''"

definition second_page_fails :: world where
  \<comment> \<open>the extraction on page 2 throws\<close>
  "second_page_fails =
     \<lparr> launch = None, newPage = None, goto = None, waitForSelector = None,
       page_at = (\<lambda>i. if i = 2 then (catalog_page True)\<lparr>evaluate := Inl ''Execution context was destroyed''\<rparr>
                        else catalog_page True),
       close = None \<rparr>"

definition close_fails_too :: world where
  \<comment> \<open>the extraction on page 2 throws, and then \<open>browser.close()\<close> throws as well\<close>
  "close_fails_too = second_page_fails\<lparr>close := Some ''Protocol error: Connection closed''\<rparr>"

definition post_request :: request where
  \<comment> \<open>a POST request with an empty body object\<close>
  "post_request =
     \<lparr> http_method = ''POST'', body_searchTerm = None, body_minPrice = Undefined,
       body_maxPrice = Undefined, body_minOrderCount = Undefined, body_maxPages = Undefined \<rparr>"

definition goto_times_out :: handler_world where
  \<comment> \<open>the browser starts, the navigation to the search page times out\<close>
  "goto_times_out =
     \<lparr> h_launch = None, h_newPage = None,
       h_goto = Some ''Navigation timeout of 60000 ms exceeded'',
       h_evaluate = Inr [], h_clock = (\<lambda>i. ''2024-01-01T00:00:00.000Z''), h_close = None,
       h_now = ''2024-01-01T00:00:00.000Z'' \<rparr>"

section \<open>Order counts\<close>

lemma digit_not_ws: "is_digit c \<Longrightarrow> \<not> is_ws c"
  by (auto simp: is_digit_def is_ws_def)

lemma digit_not_sign: "is_digit c \<Longrightarrow> c \<noteq> CHR ''-'' \<and> c \<noteq> CHR ''+''"
  by (auto simp: is_digit_def)

lemma to_double_small: "v < 2 ^ 53 \<Longrightarrow> to_double v = Fin (int v)"
  by (simp add: to_double_def)

lemma to_double_cases: "(\<exists>i. to_double v = Fin i \<and> 0 \<le> i) \<or> to_double v = PosInf"
  unfolding to_double_def Let_def by (simp del: power_numeral of_nat_power of_nat_mult)

lemma to_double_above: "to_double 9007199254740995 = Fin 9007199254740996"
proof -
  have "width 9007199254740995 = 54"
    by (simp add: width.simps)
  then show ?thesis
    by (simp add: to_double_def Let_def)
qed

lemma to_double_top: "to_double 9007199254740992 = Fin 9007199254740992"
proof -
  have "width 9007199254740992 = 54"
    by (simp add: width.simps)
  then show ?thesis
    by (simp add: to_double_def Let_def)
qed

lemma parseInt_digits:
  assumes "ds \<noteq> []" and "\<forall>c \<in> set ds. is_digit c"
  shows "parseInt ds = to_double (decimal ds)"
proof -
  obtain c r where ds: "ds = c # r" using assms(1) by (cases ds) auto
  have c: "is_digit c" using assms(2) ds by simp
  have tw: "takeWhile is_digit ds = ds" using assms(2) by (simp add: takeWhile_eq_all_conv)
  have dw: "dropWhile is_ws ds = ds" using c ds digit_not_ws by simp
  have S': "(case ds of [] \<Rightarrow> ds | c # r \<Rightarrow> if c = CHR ''-'' \<or> c = CHR ''+'' then r else ds) = ds"
    using digit_not_sign[OF c] by (simp add: ds)
  have sg: "(case ds of [] \<Rightarrow> 1 | c # x \<Rightarrow> if c = CHR ''-'' then - 1 else (1::int)) = 1"
    using digit_not_sign[OF c] by (simp add: ds)
  have "parseInt ds = (case to_double (decimal ds) of
                         Fin i \<Rightarrow> Fin (1 * i)
                       | PosInf \<Rightarrow> if (1::int) < 0 then NegInf else PosInf
                       | x \<Rightarrow> x)"
    using assms(1) by (simp add: parseInt_def dw S' sg tw)
  then show ?thesis
    using to_double_cases[of "decimal ds"] by auto
qed

lemma derive_eq_double: "derive_orderCount text = to_double (decimal (filter is_digit text))"
proof (cases "filter is_digit text = []")
  case True
  then show ?thesis
    by (simp add: derive_orderCount_def strip_non_digits_def parseInt_def or_zero_def decimal_def
        to_double_small)
next
  case False
  then have "parseInt (filter is_digit text) = to_double (decimal (filter is_digit text))"
    by (intro parseInt_digits) auto
  then show ?thesis
    using to_double_cases[of "decimal (filter is_digit text)"]
    by (auto simp: derive_orderCount_def strip_non_digits_def or_zero_def)
qed

lemma derive_cases:
  "(\<exists>i. derive_orderCount t = Fin i \<and> 0 \<le> i) \<or> derive_orderCount t = PosInf"
  by (simp add: derive_eq_double to_double_cases)

lemma derive_nonneg: "number_ge (derive_orderCount t) 0"
  using derive_cases[of t] by auto

lemma derive_lt_ge: "number_lt (derive_orderCount t) m = (\<not> number_ge (derive_orderCount t) m)"
  using derive_cases[of t] by auto

lemma filter_dropWhile: "(\<And>c. Q c \<Longrightarrow> \<not> P c) \<Longrightarrow> filter P (dropWhile Q s) = filter P s"
  by (induction s) auto

lemma digits_trim: "filter is_digit (trim s) = filter is_digit s"
proof -
  have "filter is_digit (trim s) = rev (filter is_digit (dropWhile is_ws (rev (dropWhile is_ws s))))"
    by (simp add: trim_def rev_filter)
  also have "\<dots> = rev (filter is_digit (rev (dropWhile is_ws s)))"
    using filter_dropWhile[of is_ws is_digit] digit_not_ws by auto
  also have "\<dots> = filter is_digit (dropWhile is_ws s)"
    by (simp add: rev_filter)
  also have "\<dots> = filter is_digit s"
    using filter_dropWhile[of is_ws is_digit] digit_not_ws by auto
  finally show ?thesis .
qed

lemma derive_trim: "derive_orderCount (trim s) = derive_orderCount s"
  by (simp add: derive_eq_double digits_trim)

lemma derive_record:
  "derive_orderCount (orderCount (product_record now el)) =
     (case orderCountEl el of Some t \<Rightarrow> derive_orderCount t | None \<Rightarrow> Fin 0)"
  by (cases "orderCountEl el")
     (simp_all add: product_record_def text_or_def derive_trim,
      simp add: derive_eq_double is_digit_def decimal_def digit_val_def to_double_small)

text \<open>
  C5, as the specification states it: for every raw order-count text the derived order
  count is the integer read from the digits of the text. It fails on a text whose digits
  read \<open>2^53 + 3\<close>: \<open>parseInt\<close> returns the nearest double, \<open>2^53 + 4\<close>.
\<close>

theorem orderCount_rounding_counterexample:
  "orderCount_per_spec long_count = 9007199254740995
   \<and> derive_orderCount long_count = Fin 9007199254740996"
proof -
  have d: "filter is_digit long_count = ''9007199254740995''"
    by (simp add: long_count_def is_digit_def)
  have v: "decimal ''9007199254740995'' = 9007199254740995"
    by (simp add: decimal_def digit_val_def)
  show ?thesis
    by (simp add: derive_eq_double orderCount_per_spec_def d v to_double_above)
qed

text \<open>
  C5, amended: the derived order count is the double nearest to the integer read from the
  digits of the text (0 when the text has no digit); it is that integer itself whenever the
  integer is at most \<open>2^53\<close>. So \<open>1,234 orders\<close> gives 1234, and the empty text and
  \<open>N/A\<close> give 0.
\<close>

theorem orderCount_derivation:
  "derive_orderCount text = to_double (nat (orderCount_per_spec text))
   \<and> (orderCount_per_spec text \<le> 2 ^ 53 \<longrightarrow> derive_orderCount text = Fin (orderCount_per_spec text))
   \<and> derive_orderCount ''1,234 orders'' = Fin 1234
   \<and> derive_orderCount '''' = Fin 0
   \<and> derive_orderCount ''N/A'' = Fin 0"
proof -
  have spec: "orderCount_per_spec text = int (decimal (filter is_digit text))"
    by (cases "filter is_digit text = []") (simp_all add: orderCount_per_spec_def decimal_def)
  have "derive_orderCount text = Fin (orderCount_per_spec text)"
    if "orderCount_per_spec text \<le> 2 ^ 53"
  proof (cases "decimal (filter is_digit text) = 2 ^ 53")
    case True
    then show ?thesis by (simp add: derive_eq_double spec to_double_top)
  next
    case False
    then have "decimal (filter is_digit text) < 2 ^ 53"
      using that spec by (simp add: nat_less_le)
    then show ?thesis by (simp add: derive_eq_double spec to_double_small)
  qed
  moreover have "derive_orderCount text = to_double (nat (orderCount_per_spec text))"
    by (simp add: derive_eq_double spec)
  moreover have "derive_orderCount ''1,234 orders'' = Fin 1234"
    by (simp add: derive_eq_double is_digit_def decimal_def digit_val_def to_double_small)
  moreover have "derive_orderCount '''' = Fin 0"
    by (simp add: derive_eq_double decimal_def to_double_small)
  moreover have "derive_orderCount ''N/A'' = Fin 0"
    by (simp add: derive_eq_double is_digit_def decimal_def to_double_small)
  ultimately show ?thesis by blast
qed

theorem orderCount_derivation_witness:
  "orderCount_per_spec ''1,234 orders'' \<le> 2 ^ 53
   \<and> orderCount_per_spec ''1,234 orders'' = 1234
   \<and> derive_orderCount ''1,234 orders'' = Fin (orderCount_per_spec ''1,234 orders'')"
proof -
  have "orderCount_per_spec ''1,234 orders'' = 1234"
    by (simp add: orderCount_per_spec_def is_digit_def decimal_def digit_val_def)
  then show ?thesis
    using orderCount_derivation[of "''1,234 orders''"] by (simp add: to_double_small)
qed

section \<open>The filter\<close>

lemma keep_product_spec: "keep_product opts p = passes_per_spec (minOrderCount opts) p"
  using derive_nonneg[of "orderCount p"]
  by (cases "minOrderCount opts") (auto simp: keep_product_def passes_per_spec_def)

lemma handler_item_spec:
  "handler_item mo now el =
     (if passes_per_spec mo (product_record now el) then Some (product_record now el) else None)"
proof -
  have n: "(case orderCountEl el of Some t \<Rightarrow> derive_orderCount t | None \<Rightarrow> Fin 0)
             = derive_orderCount (orderCount (product_record now el))"
    by (simp add: derive_record)
  show ?thesis
    using derive_nonneg[of "orderCount (product_record now el)"]
      derive_lt_ge[of "orderCount (product_record now el)"]
    by (cases mo) (auto simp: handler_item_def passes_per_spec_def n)
qed

lemma map_the_filter:
  "map the (filter (\<lambda>r. r \<noteq> None) (map (\<lambda>x. if P (f x) then Some (f x) else None) xs))
     = filter P (map f xs)"
  by (induction xs) auto

lemma handler_products_spec:
  "handler_products mo clk els = filter (passes_per_spec mo) (extract_records clk els)"
proof -
  have "(\<lambda>(i, el). handler_item mo (clk i) el) =
        (\<lambda>x. if passes_per_spec mo ((\<lambda>(i, el). product_record (clk i) el) x)
              then Some ((\<lambda>(i, el). product_record (clk i) el) x) else None)"
    by (auto simp: fun_eq_iff handler_item_spec)
  then show ?thesis
    unfolding handler_products_def extract_records_def by (simp only: map_the_filter)
qed

lemma pageProducts_spec:
  "pageProducts opts clk els =
     filter (passes_per_spec (minOrderCount opts)) (extract_records clk els)"
proof -
  have "keep_product opts = passes_per_spec (minOrderCount opts)"
    by (rule ext) (rule keep_product_spec)
  then show ?thesis by (simp add: pageProducts_def)
qed

section \<open>Extraction\<close>

text \<open>
  C6. A sub-field whose attribute or child element is absent yields its sentinel in the
  record: \<open>N/A\<close> for id, title, price, rating and link, \<open>0\<close> for the raw order-count text.
  The record is always built; \<open>handler\<close> either rejects the item by its filter or
  returns that same record.
\<close>

theorem absent_subfields_yield_sentinels:
  "(data_product_id el = None \<longrightarrow> id' (product_record now el) = ''N/A'')
   \<and> (titleEl el = None \<longrightarrow> title (product_record now el) = ''N/A'')
   \<and> (priceEl el = None \<longrightarrow> price (product_record now el) = ''N/A'')
   \<and> (orderCountEl el = None \<longrightarrow> orderCount (product_record now el) = ''0'')
   \<and> (ratingEl el = None \<longrightarrow> rating (product_record now el) = ''N/A'')
   \<and> (anchor el = None \<longrightarrow> link (product_record now el) = ''N/A'')
   \<and> (handler_item mo now el = None \<or> handler_item mo now el = Some (product_record now el))"
  by (simp add: product_record_def text_or_def handler_item_spec)

theorem absent_subfields_yield_sentinels_witness:
  "data_product_id bare_element = None \<and> titleEl bare_element = None
   \<and> priceEl bare_element = None \<and> orderCountEl bare_element = None
   \<and> ratingEl bare_element = None \<and> anchor bare_element = None
   \<and> id' (product_record ''2024-01-01T00:00:00.000Z'' bare_element) = ''N/A''
   \<and> title (product_record ''2024-01-01T00:00:00.000Z'' bare_element) = ''N/A''
   \<and> price (product_record ''2024-01-01T00:00:00.000Z'' bare_element) = ''N/A''
   \<and> orderCount (product_record ''2024-01-01T00:00:00.000Z'' bare_element) = ''0''
   \<and> rating (product_record ''2024-01-01T00:00:00.000Z'' bare_element) = ''N/A''
   \<and> link (product_record ''2024-01-01T00:00:00.000Z'' bare_element) = ''N/A''"
  using absent_subfields_yield_sentinels [of bare_element "''2024-01-01T00:00:00.000Z''" Null]
  by (simp add: bare_element_def)

text \<open>
  C9, as the specification states it: the \<open>orderCount\<close> field of an emitted record is a
  non-negative integer. It fails on an item whose order-count element reads
  \<open>1,234 orders\<close>: the field holds that text, which is no numeral, and not the 1234
  derived from it.
\<close>

theorem orderCount_field_counterexample:
  "orderCount (product_record ''2024-01-01T00:00:00.000Z'' phone_element) = ''1,234 orders''
   \<and> \<not> list_all is_digit (orderCount (product_record ''2024-01-01T00:00:00.000Z'' phone_element))
   \<and> derive_orderCount ''1,234 orders'' = Fin 1234"
proof -
  have "orderCount (product_record ''2024-01-01T00:00:00.000Z'' phone_element) = ''1,234 orders''"
    by (simp add: product_record_def phone_element_def text_or_def trim_def is_ws_def)
  moreover have "\<not> list_all is_digit ''1,234 orders''"
    by (simp add: is_digit_def)
  moreover have "derive_orderCount ''1,234 orders'' = Fin 1234"
    by (simp add: derive_eq_double is_digit_def decimal_def digit_val_def to_double_small)
  ultimately show ?thesis by simp
qed

text \<open>
  C9, amended: the \<open>orderCount\<close> field of every record is the raw order-count text (the
  trimmed text of the order-count element, \<open>0\<close> when the element is absent); the number
  derived from it is non-negative, is the one derived from the untrimmed text, and is used
  by the filter only.
\<close>

theorem orderCount_field_is_raw_text:
  "orderCount (product_record now el) = (case orderCountEl el of Some t \<Rightarrow> trim t | None \<Rightarrow> ''0'')
   \<and> number_ge (derive_orderCount (orderCount (product_record now el))) 0
   \<and> derive_orderCount (orderCount (product_record now el)) =
       (case orderCountEl el of Some t \<Rightarrow> derive_orderCount t | None \<Rightarrow> Fin 0)"
proof -
  have "orderCount (product_record now el) = (case orderCountEl el of Some t \<Rightarrow> trim t | None \<Rightarrow> ''0'')"
    by (simp add: product_record_def text_or_def)
  moreover have "number_ge (derive_orderCount (orderCount (product_record now el))) 0"
    by (rule derive_nonneg)
  ultimately show ?thesis
    using derive_record[of now el] by simp
qed

section \<open>The search URL\<close>

lemma hex_range: "n < 16 \<Longrightarrow> hex n \<in> set ''0123456789ABCDEF''"
  unfolding hex_def by (rule nth_mem) simp

lemma utf8_bytes: "b \<in> set (utf8 c) \<Longrightarrow> b < 256"
proof -
  have "(of_char c :: nat) < 256"
    by (rule nat_of_char_less_256)
  then have "(of_char c :: nat) div 64 < 4"
    by arith
  moreover assume "b \<in> set (utf8 c)"
  ultimately show ?thesis
    by (auto simp: utf8_def Let_def split: if_splits)
qed

lemma percent_byte_chars:
  assumes "b < 256" and "x \<in> set (percent_byte b)"
  shows "x \<in> set ''%0123456789ABCDEF''"
proof -
  have "b div 16 < 16" "b mod 16 < 16" using assms(1) by auto
  then have "hex (b div 16) \<in> set ''0123456789ABCDEF''" "hex (b mod 16) \<in> set ''0123456789ABCDEF''"
    by (simp_all only: hex_range)
  then show ?thesis using assms(2) unfolding percent_byte_def by auto
qed

lemma form_encode_chars:
  assumes "x \<in> set (form_encode s)"
  shows "x \<noteq> CHR ''&'' \<and> x \<noteq> CHR ''=''"
proof -
  define f where "f = (\<lambda>c. if c = CHR '' '' then ''+''
                        else if alphanumeric c \<or> c \<in> set ''*-._'' then [c]
                        else concat (map percent_byte (utf8 c)))"
  have "form_encode s = concat (map f s)"
    by (simp add: form_encode_def f_def)
  with assms obtain c where c: "c \<in> set s" and x: "x \<in> set (f c)"
    by (simp only: set_concat set_map) blast
  show ?thesis
  proof (cases "c = CHR '' ''")
    case True
    then show ?thesis using x by (simp add: f_def)
  next
    case sp: False
    show ?thesis
    proof (cases "alphanumeric c \<or> c \<in> set ''*-._''")
      case True
      then have "x = c" using x sp by (simp add: f_def)
      then show ?thesis using True by (auto simp: alphanumeric_def)
    next
      case False
      then obtain b where "b \<in> set (utf8 c)" "x \<in> set (percent_byte b)"
        using x sp by (auto simp: f_def)
      then have "x \<in> set ''%0123456789ABCDEF''"
        using percent_byte_chars utf8_bytes by blast
      then show ?thesis by auto
    qed
  qed
qed

lemma split_on_single: "d \<notin> set x \<Longrightarrow> split_on d x = [x]"
  by (induction x) auto

lemma split_on_append: "d \<notin> set x \<Longrightarrow> split_on d (x @ d # r) = x # split_on d r"
  by (induction x) auto

lemma takeWhile_before: "d \<notin> set x \<Longrightarrow> takeWhile (\<lambda>c. c \<noteq> d) (x @ d # r) = x"
  by (induction x) auto

lemma query_of_searchURL:
  "query_of (searchURL t lo hi) = params_toString (search_params t lo hi)"
  by (simp add: query_of_def searchURL_def baseURL_def)

lemma piece_no_amp: "CHR ''&'' \<notin> set (piece k v)"
  using form_encode_chars by (auto simp: piece_def)

lemma piece_nonempty: "piece k v \<noteq> []"
  by (simp add: piece_def)

lemma piece_name: "takeWhile (\<lambda>c. c \<noteq> CHR ''='') (piece k v) = form_encode k"
  unfolding piece_def
  using takeWhile_before[of "CHR ''=''" "form_encode k" "form_encode v"] form_encode_chars
  by auto

lemma names_literal:
  "form_decode (form_encode ''SearchText'') = Some ''SearchText''"
  "form_decode (form_encode ''minPrice'') = Some ''minPrice''"
  "form_decode (form_encode ''maxPrice'') = Some ''maxPrice''"
  by code_simp+

lemma split_pieces:
  "split_on CHR ''&'' (join ''&'' (map (\<lambda>(k, v). piece k v) (p # ps)))
     = map (\<lambda>(k, v). piece k v) (p # ps)"
proof (induction ps arbitrary: p)
  case Nil
  then show ?case by (cases p) (simp add: split_on_single piece_no_amp)
next
  case (Cons q ps)
  obtain k v where p: "p = (k, v)" by (cases p)
  have "split_on CHR ''&'' (piece k v @ CHR ''&'' # join ''&'' (map (\<lambda>(k, v). piece k v) (q # ps)))
        = piece k v # split_on CHR ''&'' (join ''&'' (map (\<lambda>(k, v). piece k v) (q # ps)))"
    by (rule split_on_append) (rule piece_no_amp)
  then show ?case using Cons[of q] by (simp add: p)
qed

lemma query_names_params:
  "query_names (searchURL t lo hi)
     = map (\<lambda>(k, v). form_decode (form_encode k)) (search_params t lo hi)"
proof -
  obtain p ps where sp: "search_params t lo hi = p # ps"
    by (simp add: search_params_def)
  have ne: "filter (\<lambda>x. x \<noteq> []) (map (\<lambda>(k, v). piece k v) (p # ps))
              = map (\<lambda>(k, v). piece k v) (p # ps)"
    by (rule filter_True) (auto simp: piece_nonempty split: prod.splits)
  show ?thesis
    unfolding query_names_def query_params_def query_of_searchURL sp params_toString_def
      split_pieces ne
    by (simp add: piece_name case_prod_unfold comp_def)
qed

lemma query_names_searchURL:
  "query_names (searchURL t lo hi) =
     Some ''SearchText'' # (if truthy lo then [Some ''minPrice''] else [])
                          @ (if truthy hi then [Some ''maxPrice''] else [])"
  unfolding query_names_params search_params_def
  by (simp add: names_literal)

lemma absent_falsy: "absent x \<Longrightarrow> \<not> truthy x"
  by (auto simp: absent_def)

text \<open>
  C7. The URL is a function of the search term and the two price bounds alone. Read back,
  its query has the parameter \<open>SearchText\<close>, then \<open>minPrice\<close> exactly when the code takes
  the lower bound as given, then \<open>maxPrice\<close> likewise; a bound that is absent
  (\<open>undefined\<close> or \<open>null\<close>) leaves no parameter of its name, empty or not. This holds for
  \<open>buildSearchURL\<close> and for the URL \<open>handler\<close> builds.
\<close>

theorem price_parameters_only_when_present:
  "buildSearchURL opts = searchURL (searchTerm opts) (minPrice opts) (maxPrice opts)
   \<and> query_names (searchURL t lo hi) =
       Some ''SearchText'' # (if truthy lo then [Some ''minPrice''] else [])
                            @ (if truthy hi then [Some ''maxPrice''] else [])
   \<and> (absent lo \<longrightarrow> Some ''minPrice'' \<notin> set (query_names (searchURL t lo hi)))
   \<and> (absent hi \<longrightarrow> Some ''maxPrice'' \<notin> set (query_names (searchURL t lo hi)))"
proof -
  have "buildSearchURL opts = searchURL (searchTerm opts) (minPrice opts) (maxPrice opts)"
    by (simp add: buildSearchURL_def)
  moreover have "absent lo \<longrightarrow> Some ''minPrice'' \<notin> set (query_names (searchURL t lo hi))"
    using absent_falsy[of lo] by (simp add: query_names_searchURL)
  moreover have "absent hi \<longrightarrow> Some ''maxPrice'' \<notin> set (query_names (searchURL t lo hi))"
    using absent_falsy[of hi] by (simp add: query_names_searchURL)
  ultimately show ?thesis
    using query_names_searchURL[of t lo hi] by blast
qed

theorem price_parameters_only_when_present_witness:
  "absent (minPrice no_bounds) \<and> absent (maxPrice no_bounds)
   \<and> Some ''minPrice'' \<notin> set (query_names (buildSearchURL no_bounds))
   \<and> Some ''maxPrice'' \<notin> set (query_names (buildSearchURL no_bounds))
   \<and> query_names (buildSearchURL no_bounds) = [Some ''SearchText'']"
proof -
  have a: "absent (minPrice no_bounds)" "absent (maxPrice no_bounds)"
    by (simp_all add: no_bounds_def absent_def)
  show ?thesis
    using a price_parameters_only_when_present
            [of no_bounds "searchTerm no_bounds" "minPrice no_bounds" "maxPrice no_bounds"]
    by (simp add: absent_falsy)
qed

text \<open>
  C10. A price bound that is given as 0 is left out of the URL: the URL is the one built
  with the bound absent, and its query has no parameter of that name.
\<close>

theorem zero_price_bound_is_omitted:
  "buildSearchURL (opts\<lparr>minPrice := Num 0\<rparr>) = buildSearchURL (opts\<lparr>minPrice := Null\<rparr>)
   \<and> buildSearchURL (opts\<lparr>minPrice := Num 0\<rparr>) = buildSearchURL (opts\<lparr>minPrice := Undefined\<rparr>)
   \<and> buildSearchURL (opts\<lparr>maxPrice := Num 0\<rparr>) = buildSearchURL (opts\<lparr>maxPrice := Null\<rparr>)
   \<and> buildSearchURL (opts\<lparr>maxPrice := Num 0\<rparr>) = buildSearchURL (opts\<lparr>maxPrice := Undefined\<rparr>)
   \<and> Some ''minPrice'' \<notin> set (query_names (buildSearchURL (opts\<lparr>minPrice := Num 0\<rparr>)))
   \<and> Some ''maxPrice'' \<notin> set (query_names (buildSearchURL (opts\<lparr>maxPrice := Num 0\<rparr>)))
   \<and> searchURL t (Num 0) hi = searchURL t Undefined hi
   \<and> searchURL t lo (Num 0) = searchURL t lo Undefined"
proof -
  have u: "searchURL t (Num 0) hi = searchURL t Undefined hi"
          "searchURL t lo (Num 0) = searchURL t lo Undefined" for t lo hi
    by (simp_all add: searchURL_def search_params_def)
  have n: "searchURL t Null hi = searchURL t Undefined hi"
          "searchURL t lo Null = searchURL t lo Undefined" for t lo hi
    by (simp_all add: searchURL_def search_params_def)
  have "Some ''minPrice'' \<notin> set (query_names (buildSearchURL (opts\<lparr>minPrice := Num 0\<rparr>)))"
    by (simp add: buildSearchURL_def query_names_searchURL)
  moreover have "Some ''maxPrice'' \<notin> set (query_names (buildSearchURL (opts\<lparr>maxPrice := Num 0\<rparr>)))"
    by (simp add: buildSearchURL_def query_names_searchURL)
  ultimately show ?thesis
    by (simp add: buildSearchURL_def u n)
qed

text \<open>
  C8 on a search term of two words. \<open>encodeURIComponent\<close> turns the space into \<open>%20\<close>,
  and \<open>URLSearchParams\<close> then escapes the \<open>%\<close> again: the URL carries \<open>smart%2520phone\<close>,
  and decoding the parameter once gives \<open>smart%20phone\<close>, not the search term.
\<close>

theorem searchTerm_is_encoded_twice:
  "buildSearchURL two_words = ''https://www.aliexpress.com/wholesale?SearchText=smart%2520phone''
   \<and> query_params (buildSearchURL two_words) = [(Some ''SearchText'', Some ''smart%20phone'')]
   \<and> searchTerm two_words = ''smart phone''"
proof -
  have "buildSearchURL two_words = ''https://www.aliexpress.com/wholesale?SearchText=smart%2520phone''"
    by code_simp
  moreover have "query_params ''https://www.aliexpress.com/wholesale?SearchText=smart%2520phone''
                   = [(Some ''SearchText'', Some ''smart%20phone'')]"
    by code_simp
  moreover have "searchTerm two_words = ''smart phone''"
    by (simp add: two_words_def)
  ultimately show ?thesis by simp
qed

section \<open>The pagination loop\<close>

lemma emit_simps [simp]:
  "events (emit ev st) = events st @ [ev]"
  "products (emit ev st) = products st"
  by (simp_all add: emit_def)

lemma loop_body_products:
  "loop_body w opts p st = (fl, st') \<Longrightarrow> products st' = products st @ page_records w opts p"
  by (auto simp: loop_body_def page_records_def Let_def split: sum.splits if_splits option.splits)

lemma loop_body_passes:
  "loop_body w opts p st = (fl, st') \<Longrightarrow>
     extraction_passes (events st') = Suc (extraction_passes (events st))"
  by (auto simp: loop_body_def extraction_passes_def Let_def split: sum.splits if_splits option.splits)

lemma loop_body_closes:
  "loop_body w opts p st = (fl, st') \<Longrightarrow> closes (events st') = closes (events st)"
  by (auto simp: loop_body_def closes_def Let_def split: sum.splits if_splits option.splits)

lemma loop_body_within:
  "loop_body w opts p st = (fl, st') \<Longrightarrow> p \<le> K \<Longrightarrow> list_all (within K) (events st)
     \<Longrightarrow> list_all (within K) (events st')"
  by (auto simp: loop_body_def within_def Let_def split: sum.splits if_splits option.splits)

lemma loop_body_Normal:
  "loop_body w opts p st = (Normal, st') \<Longrightarrow> advances w p \<and> p < maxPages opts"
  by (auto simp: loop_body_def advances_def Let_def split: sum.splits if_splits option.splits)

lemma loop_body_Break:
  "loop_body w opts p st = (Break, st') \<Longrightarrow>
     maxPages opts \<le> p \<or> next_page (page_at w p) = Inr False"
  by (auto simp: loop_body_def Let_def split: sum.splits if_splits option.splits)

lemma loop_body_Throw:
  "loop_body w opts p st = (Throw e, st') \<Longrightarrow> failure_at w opts p = Some e"
  by (auto simp: loop_body_def failure_at_def Let_def split: sum.splits if_splits option.splits)

lemma loop_body_failure:
  "failure_at w opts p = Some e \<Longrightarrow> fst (loop_body w opts p st) = Throw e"
  by (auto simp: loop_body_def failure_at_def Let_def split: sum.splits if_splits option.splits)

lemma loop_body_advances:
  "advances w p \<Longrightarrow> p < maxPages opts \<Longrightarrow> fst (loop_body w opts p st) = Normal"
  by (auto simp: loop_body_def advances_def Let_def split: sum.splits if_splits option.splits)

lemma scrape_loop_inv:
  "scrape_loop w opts p st = (fl, pn, st') \<Longrightarrow> p \<le> maxPages opts \<Longrightarrow>
     p \<le> pn \<and> pn \<le> maxPages opts \<and> exit_reason w opts fl pn
     \<and> extraction_passes (events st') = extraction_passes (events st) + nat (pn - p + 1)
     \<and> closes (events st') = closes (events st)
     \<and> (\<forall>K. pn \<le> K \<longrightarrow> list_all (within K) (events st) \<longrightarrow> list_all (within K) (events st'))
     \<and> products st' = products st @ concat (map (page_records w opts) [p..pn])"
proof (induction w opts p st arbitrary: fl pn st' rule: scrape_loop.induct)
  case (1 w opts pageNum st)
  obtain f s where body: "loop_body w opts pageNum st = (f, s)"
    by (cases "loop_body w opts pageNum st")
  note facts = loop_body_products[OF body] loop_body_passes[OF body] loop_body_closes[OF body]
    loop_body_within[OF body]
  show ?case
  proof (cases f)
    case Normal
    with body have adv: "advances w pageNum" "pageNum < maxPages opts"
      using loop_body_Normal by blast+
    have rec: "scrape_loop w opts (pageNum + 1) s = (fl, pn, st')"
      using "1.prems" body Normal by (simp add: scrape_loop.simps[of w opts pageNum])
    have IH: "pageNum + 1 \<le> pn \<and> pn \<le> maxPages opts \<and> exit_reason w opts fl pn
     \<and> extraction_passes (events st') = extraction_passes (events s) + nat (pn - (pageNum + 1) + 1)
     \<and> closes (events st') = closes (events s)
     \<and> (\<forall>K. pn \<le> K \<longrightarrow> list_all (within K) (events s) \<longrightarrow> list_all (within K) (events st'))
     \<and> products st' = products s @ concat (map (page_records w opts) [pageNum + 1..pn])"
      using "1.IH"[OF "1.prems"(2) body[symmetric] _ rec] Normal adv by simp
    have "[pageNum..pn] = pageNum # [pageNum + 1..pn]"
      using IH by (simp add: upto_rec1)
    then show ?thesis
      using IH facts by auto
  next
    case Break
    then have res: "fl = Break" "pn = pageNum" "st' = s"
      using "1.prems" body by (simp_all add: scrape_loop.simps[of w opts pageNum])
    have "exit_reason w opts Break pageNum"
      using loop_body_Break[of w opts pageNum st s] body Break "1.prems"(2)
      by (auto simp: exit_reason_def)
    then show ?thesis using res facts "1.prems"(2) by auto
  next
    case (Throw e)
    then have res: "fl = Throw e" "pn = pageNum" "st' = s"
      using "1.prems" body by (simp_all add: scrape_loop.simps[of w opts pageNum])
    have "exit_reason w opts (Throw e) pageNum"
      using loop_body_Throw[of w opts pageNum st e s] body Throw
      by (auto simp: exit_reason_def)
    then show ?thesis using res facts "1.prems"(2) by auto
  qed
qed


lemma scrape_loop_fails:
  assumes "p \<le> k" and "k \<le> maxPages opts"
    and "\<forall>i. p \<le> i \<and> i < k \<longrightarrow> advances w i"
    and "failure_at w opts k = Some e"
  shows "\<exists>st'. scrape_loop w opts p st = (Throw e, k, st')"
  using assms
proof (induction "nat (k - p)" arbitrary: p st)
  case 0
  then have pk: "p = k" by simp
  obtain f s where body: "loop_body w opts k st = (f, s)"
    by (cases "loop_body w opts k st")
  then have "f = Throw e"
    using loop_body_failure[OF "0.prems"(4), of st] by simp
  then show ?case
    using body "0.prems"(2) by (simp add: pk scrape_loop.simps[of w opts k])
next
  case (Suc n)
  then have lt: "p < k" by simp
  then have adv: "advances w p" "p < maxPages opts"
    using Suc.prems by auto
  obtain f s where body: "loop_body w opts p st = (f, s)"
    by (cases "loop_body w opts p st")
  then have f: "f = Normal"
    using loop_body_advances[OF adv, of st] by simp
  have "\<exists>st'. scrape_loop w opts (p + 1) s = (Throw e, k, st')"
    using Suc.hyps(2) lt Suc.prems by (intro Suc.hyps(1)) auto
  then show ?case
    using body f adv(2) by (simp add: scrape_loop.simps[of w opts p])
qed

lemma scrapeProducts_run:
  assumes "launch w = None" "newPage w = None" "goto w = None" "waitForSelector w = None"
    and "scrape_loop w opts 1 (start opts) = (fl, pn, st)"
  shows "scrapeProducts w opts =
           ((case close w of Some e \<Rightarrow> Thrown e | None \<Rightarrow> Returned (products st)),
            events st @ (case fl of Throw e \<Rightarrow> [Log e] | _ \<Rightarrow> []) @ [Close])"
  using assms
  by (cases fl; cases "close w")
     (simp_all add: scrapeProducts_def initialize_def try_block_def start_def emit_def)

lemma scrape_loop_none:
  "\<not> p \<le> maxPages opts \<Longrightarrow> scrape_loop w opts p st = (Normal, p, st)"
  by (simp add: scrape_loop.simps[of w opts p])

lemma start_facts:
  "extraction_passes (events (start opts)) = 0"
  "closes (events (start opts)) = 0"
  "list_all (within K) (events (start opts))"
  "products (start opts) = []"
  by (simp_all add: start_def extraction_passes_def closes_def within_def)

lemma scrapeProducts_trace:
  "extraction_passes (snd (scrapeProducts w opts)) \<le> nat (maxPages opts)
   \<and> list_all (within (maxPages opts)) (snd (scrapeProducts w opts))
   \<and> closes (snd (scrapeProducts w opts)) = (if launch w = None \<and> newPage w = None then 1 else 0)"
proof (cases "launch w = None \<and> newPage w = None \<and> goto w = None \<and> waitForSelector w = None")
  case False
  then show ?thesis
    by (auto simp: scrapeProducts_def initialize_def try_block_def emit_def Let_def
        extraction_passes_def closes_def within_def split: option.splits)
next
  case ok: True
  obtain fl pn st where loop: "scrape_loop w opts 1 (start opts) = (fl, pn, st)"
    by (cases "scrape_loop w opts 1 (start opts)")
  note run = scrapeProducts_run[OF _ _ _ _ loop]
  show ?thesis
  proof (cases "1 \<le> maxPages opts")
    case True
    from scrape_loop_inv[OF loop True]
    have "extraction_passes (events st) = nat pn" "pn \<le> maxPages opts" "closes (events st) = 0"
      "list_all (within (maxPages opts)) (events st)"
      by (simp_all add: start_facts)
    then show ?thesis
      using ok run by (cases fl) (simp_all add: extraction_passes_def closes_def within_def)
  next
    case False
    then have "st = start opts" "fl = Normal"
      using loop scrape_loop_none[of 1 opts w "start opts"] by simp_all
    then show ?thesis
      using ok run start_facts(1,2)[of opts] start_facts(3)[of "maxPages opts" opts]
      by (simp add: extraction_passes_def closes_def within_def)
  qed
qed

lemma page_records_pass:
  "list_all (passes_per_spec (minOrderCount opts)) (page_records w opts i)"
  by (cases "evaluate (page_at w i)") (simp_all add: page_records_def pageProducts_spec list_all_iff)

lemma scrape_loop_advanced:
  "scrape_loop w opts p st = (fl, pn, st') \<Longrightarrow> p \<le> maxPages opts \<Longrightarrow>
     \<forall>i. p \<le> i \<and> i < pn \<longrightarrow> advances w i"
proof (induction w opts p st arbitrary: fl pn st' rule: scrape_loop.induct)
  case (1 w opts pageNum st)
  obtain f s where body: "loop_body w opts pageNum st = (f, s)"
    by (cases "loop_body w opts pageNum st")
  show ?case
  proof (cases f)
    case Normal
    with body have adv: "advances w pageNum" "pageNum < maxPages opts"
      using loop_body_Normal by blast+
    have rec: "scrape_loop w opts (pageNum + 1) s = (fl, pn, st')"
      using "1.prems" body Normal by (simp add: scrape_loop.simps[of w opts pageNum])
    have IH: "\<forall>i. pageNum + 1 \<le> i \<and> i < pn \<longrightarrow> advances w i"
      using "1.IH"[OF "1.prems"(2) body[symmetric] _ rec] Normal adv by simp
    show ?thesis
    proof (intro allI impI)
      fix i
      assume "pageNum \<le> i \<and> i < pn"
      then consider "i = pageNum" | "pageNum + 1 \<le> i \<and> i < pn"
        by linarith
      then show "advances w i"
        using adv(1) IH by cases auto
    qed
  next
    case Break
    then have "pn = pageNum"
      using "1.prems" body by (simp add: scrape_loop.simps[of w opts pageNum])
    then show ?thesis by auto
  next
    case (Throw e)
    then have "pn = pageNum"
      using "1.prems" body by (simp add: scrape_loop.simps[of w opts pageNum])
    then show ?thesis by auto
  qed
qed

lemma scrapeProducts_products:
  assumes "fst (scrapeProducts w opts) = Returned ps"
  shows "\<exists>n. ps = concat (map (page_records w opts) [1..n])"
proof (cases "launch w = None \<and> newPage w = None \<and> goto w = None \<and> waitForSelector w = None")
  case False
  then have "ps = []"
    using assms
    by (auto simp: scrapeProducts_def initialize_def try_block_def emit_def Let_def
        split: option.splits)
  then have "ps = concat (map (page_records w opts) [1..0])" by simp
  then show ?thesis ..
next
  case ok: True
  obtain fl pn st where loop: "scrape_loop w opts 1 (start opts) = (fl, pn, st)"
    by (cases "scrape_loop w opts 1 (start opts)")
  have ps: "ps = products st"
    using scrapeProducts_run[OF _ _ _ _ loop] ok assms by (auto split: option.splits)
  show ?thesis
  proof (cases "1 \<le> maxPages opts")
    case True
    from scrape_loop_inv[OF loop True]
    have "products st = concat (map (page_records w opts) [1..pn])"
      by (simp add: start_facts)
    then show ?thesis using ps by blast
  next
    case False
    then have "st = start opts"
      using loop scrape_loop_none[of 1 opts w "start opts"] by simp
    then have "ps = concat (map (page_records w opts) [1..0])"
      using ps by (simp add: start_facts)
    then show ?thesis ..
  qed
qed

lemma scrapeProducts_pass:
  "case fst (scrapeProducts w opts) of
     Returned ps \<Rightarrow> list_all (passes_per_spec (minOrderCount opts)) ps
   | Thrown e \<Rightarrow> True"
proof (cases "fst (scrapeProducts w opts)")
  case (Returned ps)
  then obtain n where "ps = concat (map (page_records w opts) [1..n])"
    using scrapeProducts_products by blast
  then have "list_all (passes_per_spec (minOrderCount opts)) ps"
    using page_records_pass[of opts w] by (auto simp: list_all_iff)
  then show ?thesis using Returned by simp
next
  case (Thrown e)
  then show ?thesis by simp
qed

lemma handler_pass:
  "case fst (handler req hw) of
     Ok m ps \<Rightarrow> list_all (passes_per_spec (or_default (body_minOrderCount req) 50)) ps
   | _ \<Rightarrow> True"
  by (auto simp: handler_def failed_def Let_def handler_products_spec list_all_iff
      split: option.splits sum.splits)

text \<open>
  C1. The filter of \<open>scrapeProducts\<close> keeps a record exactly when the threshold
  \<open>minOrderCount\<close> is absent or the order count derived from the record reaches it, and so
  does the filter of \<open>handler\<close>: what a page contributes is the extracted records that
  pass, in order, and every record either function hands back passes.
\<close>

theorem filter_rule:
  "keep_product opts p = passes_per_spec (minOrderCount opts) p
   \<and> pageProducts opts clk els
       = filter (passes_per_spec (minOrderCount opts)) (extract_records clk els)
   \<and> handler_products mo clk els = filter (passes_per_spec mo) (extract_records clk els)
   \<and> (case fst (scrapeProducts w opts) of
         Returned ps \<Rightarrow> list_all (passes_per_spec (minOrderCount opts)) ps
       | Thrown e \<Rightarrow> True)
   \<and> (case fst (handler req hw) of
         Ok m ps \<Rightarrow> list_all (passes_per_spec (or_default (body_minOrderCount req) 50)) ps
       | _ \<Rightarrow> True)"
  using keep_product_spec[of opts p] pageProducts_spec[of opts clk els]
    handler_products_spec[of mo clk els] scrapeProducts_pass[where w = w and opts = opts]
    handler_pass[where req = req and hw = hw]
  by blast

text \<open>
  C2. A run with \<open>maxPages = N\<close> makes at most \<open>N\<close> extraction passes and no call for a
  page beyond \<open>N\<close>. The loop is total. For \<open>N \<ge> 1\<close> it ends on a page \<open>pageNum\<close>
  between 1 and \<open>N\<close> after exactly \<open>pageNum\<close> passes, every earlier page having
  advanced, and it ends there because the page count has reached \<open>N\<close>, because the page
  has no next-page control, or because a call on that page threw.
\<close>

theorem pagination_bounded:
  "extraction_passes (snd (scrapeProducts w opts)) \<le> nat (maxPages opts)
   \<and> list_all (within (maxPages opts)) (snd (scrapeProducts w opts))
   \<and> (1 \<le> maxPages opts \<longrightarrow>
        (case scrape_loop w opts 1 st of
           (fl, pageNum, st') \<Rightarrow>
              1 \<le> pageNum \<and> pageNum \<le> maxPages opts
              \<and> exit_reason w opts fl pageNum
              \<and> (\<forall>i. 1 \<le> i \<and> i < pageNum \<longrightarrow> advances w i)
              \<and> extraction_passes (events st') = extraction_passes (events st) + nat pageNum))"
proof -
  have "case scrape_loop w opts 1 st of
           (fl, pageNum, st') \<Rightarrow>
              1 \<le> pageNum \<and> pageNum \<le> maxPages opts
              \<and> exit_reason w opts fl pageNum
              \<and> (\<forall>i. 1 \<le> i \<and> i < pageNum \<longrightarrow> advances w i)
              \<and> extraction_passes (events st') = extraction_passes (events st) + nat pageNum"
    if N: "1 \<le> maxPages opts"
  proof -
    obtain fl pn st' where loop: "scrape_loop w opts 1 st = (fl, pn, st')"
      by (cases "scrape_loop w opts 1 st")
    from scrape_loop_inv[OF loop N] scrape_loop_advanced[OF loop N] show ?thesis
      by (simp add: loop)
  qed
  then show ?thesis
    using scrapeProducts_trace[of w opts] by blast
qed

theorem pagination_bounded_witness:
  "1 \<le> maxPages example_options
   \<and> extraction_passes (snd (scrapeProducts three_pages example_options)) \<le> 3
   \<and> list_all (within 3) (snd (scrapeProducts three_pages example_options))
   \<and> (case scrape_loop three_pages example_options 1 (start example_options) of
         (fl, pageNum, st') \<Rightarrow>
            1 \<le> pageNum \<and> pageNum \<le> 3
            \<and> exit_reason three_pages example_options fl pageNum
            \<and> extraction_passes (events st') = nat pageNum)"
proof -
  have N: "maxPages example_options = 3"
    by (simp add: example_options_def)
  show ?thesis
    using pagination_bounded[of three_pages example_options "start example_options"]
    by (simp add: N start_facts split: prod.splits)
qed

lemma second_page_fails_facts:
  "advances second_page_fails 1"
  "\<forall>i. 1 \<le> i \<and> i < 2 \<longrightarrow> advances second_page_fails i"
  "failure_at second_page_fails example_options 2 = Some ''Execution context was destroyed''"
  "page_records second_page_fails example_options 2 = []"
  "length (page_records second_page_fails example_options 1) = 2"
proof -
  show a1: "advances second_page_fails 1"
    by (simp add: advances_def second_page_fails_def catalog_page_def)
  show "\<forall>i. 1 \<le> i \<and> i < 2 \<longrightarrow> advances second_page_fails i"
  proof (intro allI impI)
    fix i :: int
    assume "1 \<le> i \<and> i < 2"
    then have "i = 1" by linarith
    then show "advances second_page_fails i" using a1 by simp
  qed
  show "failure_at second_page_fails example_options 2 = Some ''Execution context was destroyed''"
    by (simp add: failure_at_def second_page_fails_def catalog_page_def)
  show "page_records second_page_fails example_options 2 = []"
    by (simp add: page_records_def second_page_fails_def catalog_page_def)
  have d: "derive_orderCount ''10 sold'' = Fin 10" "derive_orderCount ''60 sold'' = Fin 60"
    "derive_orderCount ''200 sold'' = Fin 200"
    by (simp_all add: derive_eq_double is_digit_def decimal_def digit_val_def to_double_small)
  have t: "trim ''10 sold'' = ''10 sold''" "trim ''60 sold'' = ''60 sold''"
    "trim ''200 sold'' = ''200 sold''"
    by (simp_all add: trim_def is_ws_def)
  have e: "enumerate 0 [a, b, c] = [(0, a), (1, b), (2, c)]" for a b c :: element
    by (simp add: enumerate_eq_zip upt_rec)
  show "length (page_records second_page_fails example_options 1) = 2"
    by (simp add: page_records_def second_page_fails_def catalog_page_def pageProducts_def
        extract_records_def e keep_product_def example_options_def product_record_def
        text_or_def item_def t d)
qed

text \<open>
  C3, as the specification states it: after a failure mid-crawl the records accumulated so
  far are returned and no hard error reaches the caller. It fails on a run where the
  extraction on page 2 throws and \<open>browser.close()\<close> in the \<open>finally\<close> block throws as
  well: \<open>scrapeProducts\<close> throws the error of \<open>close\<close>, and the two records of page 1
  are lost.
\<close>

theorem close_failure_counterexample:
  "advances close_fails_too 1
   \<and> failure_at close_fails_too example_options 2 = Some ''Execution context was destroyed''
   \<and> length (page_records close_fails_too example_options 1) = 2
   \<and> fst (scrapeProducts close_fails_too example_options)
       = Thrown ''Protocol error: Connection closed''"
proof -
  have same: "page_at close_fails_too = page_at second_page_fails"
    by (simp add: close_fails_too_def)
  have adv: "advances close_fails_too i = advances second_page_fails i" for i
    unfolding advances_def same ..
  have fa: "failure_at close_fails_too example_options i
              = failure_at second_page_fails example_options i" for i
    unfolding failure_at_def same ..
  have pr: "page_records close_fails_too example_options i
              = page_records second_page_fails example_options i" for i
    unfolding page_records_def same ..
  have facts: "advances close_fails_too 1"
    "\<forall>i. 1 \<le> i \<and> i < 2 \<longrightarrow> advances close_fails_too i"
    "failure_at close_fails_too example_options 2 = Some ''Execution context was destroyed''"
    "length (page_records close_fails_too example_options 1) = 2"
    using second_page_fails_facts by (simp_all add: adv fa pr)
  have h: "launch close_fails_too = None" "newPage close_fails_too = None"
    "goto close_fails_too = None" "waitForSelector close_fails_too = None"
    by (simp_all add: close_fails_too_def second_page_fails_def)
  have k: "(1::int) \<le> 2" "2 \<le> maxPages example_options"
    by (simp_all add: example_options_def)
  obtain st where loop:
    "scrape_loop close_fails_too example_options 1 (start example_options)
       = (Throw ''Execution context was destroyed'', 2, st)"
    using scrape_loop_fails[OF k facts(2,3)] by blast
  have "close close_fails_too = Some ''Protocol error: Connection closed''"
    by (simp add: close_fails_too_def)
  then show ?thesis
    using scrapeProducts_run[OF h loop] facts by simp
qed

text \<open>
  C3, amended. Let the crawl have started, let the pages before page \<open>k\<close> have advanced,
  and let a call of the pass on page \<open>k\<close> throw \<open>e\<close>, in the extraction or while
  advancing. Then no call is made for a later page, and the run ends by logging \<open>e\<close> and
  closing the browser. When that \<open>close\<close> does not throw, \<open>scrapeProducts\<close> returns
  normally, and its result is the records accumulated from pages 1 to \<open>k\<close> (none from
  page \<open>k\<close> when it is the extraction that threw); when \<open>close\<close> throws, its error is
  what \<open>scrapeProducts\<close> throws.
\<close>

theorem failure_returns_accumulated:
  assumes "launch w = None" and "newPage w = None" and "goto w = None"
    and "waitForSelector w = None"
    and "1 \<le> k" and "k \<le> maxPages opts"
    and "\<forall>i. 1 \<le> i \<and> i < k \<longrightarrow> advances w i"
    and "failure_at w opts k = Some e"
  shows "fst (scrapeProducts w opts) =
           (case close w of
              None \<Rightarrow> Returned (concat (map (page_records w opts) [1..k]))
            | Some e' \<Rightarrow> Thrown e')
         \<and> list_all (within k) (snd (scrapeProducts w opts))
         \<and> extraction_passes (snd (scrapeProducts w opts)) = nat k
         \<and> (\<exists>tr. snd (scrapeProducts w opts) = tr @ [Log e, Close])"
proof -
  obtain st where loop: "scrape_loop w opts 1 (start opts) = (Throw e, k, st)"
    using scrape_loop_fails[OF assms(5,6,7,8)] by blast
  have N: "1 \<le> maxPages opts" using assms(5,6) by simp
  from scrape_loop_inv[OF loop N]
  have "products st = concat (map (page_records w opts) [1..k])"
    "list_all (within k) (events st)" "extraction_passes (events st) = nat k"
    by (simp_all add: start_facts)
  then show ?thesis
    using scrapeProducts_run[OF assms(1-4) loop]
    by (cases "close w") (simp_all add: within_def extraction_passes_def)
qed

theorem failure_returns_accumulated_witness:
  "launch second_page_fails = None \<and> newPage second_page_fails = None
   \<and> goto second_page_fails = None \<and> waitForSelector second_page_fails = None
   \<and> close second_page_fails = None
   \<and> (2::int) \<le> maxPages example_options
   \<and> advances second_page_fails 1
   \<and> failure_at second_page_fails example_options 2 = Some ''Execution context was destroyed''
   \<and> fst (scrapeProducts second_page_fails example_options)
       = Returned (page_records second_page_fails example_options 1)
   \<and> length (page_records second_page_fails example_options 1) = 2
   \<and> list_all (within 2) (snd (scrapeProducts second_page_fails example_options))
   \<and> (\<exists>tr. snd (scrapeProducts second_page_fails example_options)
              = tr @ [Log ''Execution context was destroyed'', Close])"
proof -
  have h: "launch second_page_fails = None" "newPage second_page_fails = None"
    "goto second_page_fails = None" "waitForSelector second_page_fails = None"
    by (simp_all add: second_page_fails_def)
  have c: "close second_page_fails = None"
    by (simp add: second_page_fails_def)
  have k: "(1::int) \<le> 2" "2 \<le> maxPages example_options"
    by (simp_all add: example_options_def)
  have "[1..2] = [1, 2::int]"
    by (simp add: upto_rec1)
  then show ?thesis
    using failure_returns_accumulated[OF h k second_page_fails_facts(2,3)]
      h c k second_page_fails_facts by simp
qed

text \<open>
  C4 on a run of \<open>handler\<close> whose navigation times out: the browser was launched, the
  \<open>catch\<close> block answers with status 500, and \<open>browser.close()\<close> is never called.
\<close>

theorem handler_leaves_browser_open:
  "handler post_request goto_times_out =
     (ScrapingFailed ''Navigation timeout of 60000 ms exceeded'',
      [Launch, NewPage,
       Goto ''https://www.aliexpress.com/wholesale?SearchText=smartphone&minPrice=100&maxPrice=500'',
       Log ''Navigation timeout of 60000 ms exceeded''])
   \<and> h_launch goto_times_out = None
   \<and> closes (snd (handler post_request goto_times_out)) = 0"
proof -
  have "handler post_request goto_times_out =
     (ScrapingFailed ''Navigation timeout of 60000 ms exceeded'',
      [Launch, NewPage,
       Goto ''https://www.aliexpress.com/wholesale?SearchText=smartphone&minPrice=100&maxPrice=500'',
       Log ''Navigation timeout of 60000 ms exceeded''])"
    by code_simp
  then show ?thesis
    by (simp add: closes_def goto_times_out_def)
qed

text \<open>
  \<open>scrapeProducts\<close> closes the browser in its \<open>finally\<close> block, once, whenever
  \<open>initialize\<close> has succeeded; \<open>handler\<close> closes it only when nothing before has
  thrown.
\<close>

lemma scrapeProducts_closes_once:
  "launch w = None \<Longrightarrow> newPage w = None \<Longrightarrow> closes (snd (scrapeProducts w opts)) = 1"
  using scrapeProducts_trace[of w opts] by simp

lemma handler_closes_when_nothing_fails:
  "http_method req = ''POST'' \<Longrightarrow> h_launch hw = None \<Longrightarrow> h_newPage hw = None \<Longrightarrow> h_goto hw = None
     \<Longrightarrow> h_evaluate hw = Inr els \<Longrightarrow> closes (snd (handler req hw)) = 1"
  by (auto simp: handler_def failed_def Let_def closes_def split: option.splits)

lemma handler_never_closes_after_failure:
  "http_method req = ''POST'' \<Longrightarrow> h_goto hw \<noteq> None \<or> (\<exists>e. h_evaluate hw = Inl e) \<or> h_newPage hw \<noteq> None
     \<Longrightarrow> closes (snd (handler req hw)) = 0"
  by (auto simp: handler_def failed_def Let_def closes_def split: option.splits sum.splits)

end
